theory Spec2Isabelle
  imports Complex_Main "HOL-Library.AList" "HOL-Library.Char_ord" "HOL-Library.List_Lexorder"
begin

section \<open>World state, goals and actions (types/index.ts)\<close>

text \<open>
  The scalar values a \<^verbatim>\<open>WorldState\<close> holds: \<^verbatim>\<open>boolean | number | string | null\<close>.
  Numbers are modelled as integers, with \<^verbatim>\<open>NaN\<close> kept apart because its strict
  equality differs; \<^verbatim>\<open>undefined\<close> is what reading a missing key gives (and what a
  \<^verbatim>\<open>Partial<WorldState>\<close> may hold).
\<close>

datatype js_value = JUndefined | JNull | JBool bool | JNum int | JNaN | JStr string

text \<open>The operator \<^verbatim>\<open>===\<close> on these values: \<^verbatim>\<open>NaN === NaN\<close> is false.\<close>

definition strict_eq :: "js_value \<Rightarrow> js_value \<Rightarrow> bool" where
  "strict_eq a b = (a = b \<and> a \<noteq> JNaN)"

text \<open>
  A JavaScript object with scalar values: its own keys in insertion order.
  \<open>getProp s k\<close> is \<^verbatim>\<open>s[k]\<close>; \<open>spread s e\<close> is \<^verbatim>\<open>{ ...s, ...e }\<close> (a key of \<open>e\<close> that \<open>s\<close>
  has is overwritten in place, a new key is appended).
\<close>

type_synonym js_object = "(string \<times> js_value) list"
type_synonym world_state = js_object

definition getProp :: "js_object \<Rightarrow> string \<Rightarrow> js_value" where
  "getProp s k = (case map_of s k of None \<Rightarrow> JUndefined | Some v \<Rightarrow> v)"

definition spread :: "js_object \<Rightarrow> js_object \<Rightarrow> js_object" where
  "spread s e = fold (\<lambda>(k, v) acc. AList.update k v acc) e s"

text \<open>
  A goal condition: the type says a scalar, the code also accepts a predicate over the
  whole state (\<^verbatim>\<open>typeof expectedValue === 'function'\<close>), whose result is read as a
  truth value.
\<close>

datatype condition = Expect js_value | Pred "world_state \<Rightarrow> bool"

record goal =
  goalId :: string
  goalName :: string
  priority :: int
  conditions :: "(string \<times> condition) list"
  goalTimeout :: "nat option"

text \<open>
  What a thrown or rejected value is: an \<^verbatim>\<open>Error\<close> with its message, some other value
  (kept as its \<^verbatim>\<open>String(...)\<close> rendering), or the error of the timeout promise,
  \<^verbatim>\<open>new Error(`Action timeout after ${timeoutMs}ms`)\<close>.
\<close>

datatype thrown = IsError string | NotError string | ActionTimeout nat

text \<open>\<^verbatim>\<open>error instanceof Error ? error : new Error(String(error))\<close>\<close>

definition toError :: "thrown \<Rightarrow> thrown" where
  "toError e = (case e of NotError s \<Rightarrow> IsError s | _ \<Rightarrow> e)"

text \<open>A payload (\<^verbatim>\<open>unknown\<close>, \<^verbatim>\<open>any\<close>): a scalar, or an object standing for itself.\<close>

datatype payload = Scalar js_value | Object string

text \<open>Truthiness, as \<^verbatim>\<open>||\<close> reads its left operand.\<close>

definition truthy :: "payload \<Rightarrow> bool" where
  "truthy p =
     (case p of
        Object _ \<Rightarrow> True
      | Scalar v \<Rightarrow>
          (case v of
             JUndefined \<Rightarrow> False
           | JNull \<Rightarrow> False
           | JBool b \<Rightarrow> b
           | JNum n \<Rightarrow> n \<noteq> 0
           | JNaN \<Rightarrow> False
           | JStr s \<Rightarrow> s \<noteq> []))"

text \<open>\<^verbatim>\<open>t || d\<close> for an optional number of milliseconds.\<close>

definition orDefault :: "nat option \<Rightarrow> nat \<Rightarrow> nat" where
  "orDefault t d = (case t of None \<Rightarrow> d | Some n \<Rightarrow> if n = 0 then d else n)"

record action_result =
  success :: bool
  newState :: "js_object option"
  data :: "payload option"
  error :: "thrown option"
  duration :: nat

record action_context =
  ctxWorldState :: world_state
  ctxGoal :: goal
  stepIndex :: nat
  previousResults :: "action_result list"

text \<open>
  What the promise returned by an action's \<^verbatim>\<open>execute\<close> does: it is fulfilled or
  rejected some milliseconds after the call, the call throws at once, or it stays
  pending for ever.
\<close>

datatype settlement =
    Resolves payload nat
  | Rejects thrown nat
  | Throws thrown
  | Pending

text \<open>
  An \<^verbatim>\<open>Action\<close>. The cost, a number, is modelled as an integer, the timeout as a number
  of milliseconds. The type says that \<^verbatim>\<open>execute\<close> resolves with an \<^verbatim>\<open>ActionResult\<close>;
  \<^verbatim>\<open>executeAction\<close> takes whatever it resolves with as the payload.
\<close>

record action =
  actionId :: string
  actionName :: string
  cost :: int
  preconditions :: js_object
  effects :: js_object
  timeout :: "nat option"
  execute :: "action_context \<Rightarrow> settlement"

text \<open>An \<^verbatim>\<open>ActionPlan\<close>; \<^verbatim>\<open>id\<close> and \<^verbatim>\<open>createdAt\<close> only read the clock and are left out.\<close>

record action_plan =
  plan_goal :: goal
  plan_actions :: "action list"
  estimatedCost :: int
  estimatedDuration :: nat

text \<open>
  The errors of the agent: \<^verbatim>\<open>GOAPPlanningError(message, goal, worldState)\<close>, with the
  message given by its template, and the \<^verbatim>\<open>Error\<close> that \<^verbatim>\<open>execute\<close> throws for a failed
  action, \<^verbatim>\<open>Action '${action.name}' failed: ${actionResult.error?.message}\<close>.
\<close>

datatype planning_message =
    GoalNotFound
  | PlanningTimeout
  | NoValidPlan
  | NoValidActionPlan

datatype js_error =
    GOAPPlanningError planning_message goal world_state
  | ActionFailed string "thrown option"

record task =
  taskGoal :: string
  taskContext :: payload

text \<open>The events of the agent; the fields that only read the clock are left out.\<close>

datatype event =
    TaskStarted task
  | ActionStarted string nat nat
  | StateUpdated world_state world_state js_object
  | ActionCompleted string nat nat
  | TaskCompleted task payload nat
  | TaskFailed task js_error

record agent =
  worldState :: world_state
  goals :: "goal list"
  actions :: "action list"
  emitted :: "event list"

section \<open>The planner (base-agent.ts)\<close>

definition maxPlanningTime :: nat where
  "maxPlanningTime = 5000"

definition maxPlanLength :: nat where
  "maxPlanLength = 20"

definition goalSatisfied :: "goal \<Rightarrow> world_state \<Rightarrow> bool" where
  "goalSatisfied g s =
     list_all (\<lambda>(key, expectedValue).
        case expectedValue of
          Pred f \<Rightarrow> f s
        | Expect v \<Rightarrow> strict_eq (getProp s key) v) (conditions g)"

text \<open>One condition of a goal holds in a state, as both \<^verbatim>\<open>goalSatisfied\<close> and
  \<^verbatim>\<open>calculateHeuristic\<close> test it.\<close>

definition conditionMet :: "world_state \<Rightarrow> string \<times> condition \<Rightarrow> bool" where
  "conditionMet s kc =
     (case snd kc of
        Pred f \<Rightarrow> f s
      | Expect v \<Rightarrow> strict_eq (getProp s (fst kc)) v)"

text \<open>A condition that expects a scalar value, as the type of \<^verbatim>\<open>Goal.conditions\<close> has it.\<close>

definition isScalar :: "string \<times> condition \<Rightarrow> bool" where
  "isScalar kc = (case snd kc of Expect v \<Rightarrow> True | Pred f \<Rightarrow> False)"

definition preconditionsMet :: "action \<Rightarrow> world_state \<Rightarrow> bool" where
  "preconditionsMet a s =
     list_all (\<lambda>(key, expectedValue). strict_eq (getProp s key) expectedValue) (preconditions a)"

definition applyEffects :: "world_state \<Rightarrow> js_object \<Rightarrow> world_state" where
  "applyEffects s eff = spread s eff"

definition calculateHeuristic :: "world_state \<Rightarrow> goal \<Rightarrow> int" where
  "calculateHeuristic s g =
     fold (\<lambda>(key, expectedValue) distance.
        case expectedValue of
          Pred f \<Rightarrow> (if \<not> f s then distance + 1 else distance)
        | Expect v \<Rightarrow> (if \<not> strict_eq (getProp s key) v then distance + 1 else distance))
       (conditions g) 0"

text \<open>
  \<^verbatim>\<open>getStateKey\<close>: the entries sorted by key and printed by \<^verbatim>\<open>JSON.stringify\<close>, which
  prints \<^verbatim>\<open>NaN\<close> and \<^verbatim>\<open>undefined\<close> (inside an array) as \<^verbatim>\<open>null\<close>. The printed text
  is one-to-one with the sorted list of printed entries, which stands for it here; the
  order of \<^verbatim>\<open>localeCompare\<close> is taken to be the order on strings.
\<close>

definition jsonValue :: "js_value \<Rightarrow> js_value" where
  "jsonValue v = (case v of JUndefined \<Rightarrow> JNull | JNaN \<Rightarrow> JNull | _ \<Rightarrow> v)"

type_synonym state_key = "(string \<times> js_value) list"

definition getStateKey :: "world_state \<Rightarrow> state_key" where
  "getStateKey s = sort_key fst (map (\<lambda>(k, v). (k, jsonValue v)) s)"

record node =
  state :: world_state
  node_actions :: "action list"
  node_cost :: int
  heuristic :: int

text \<open>The inner \<^verbatim>\<open>for\<close> loop: the successors of a node, in registration order.\<close>

definition explore :: "goal \<Rightarrow> action list \<Rightarrow> node \<Rightarrow> node list" where
  "explore g acts current =
     map (\<lambda>a. let newState = applyEffects (state current) (effects a) in
            \<lparr>state = newState,
             node_actions = node_actions current @ [a],
             node_cost = node_cost current + cost a,
             heuristic = calculateHeuristic newState g\<rparr>)
         (filter (\<lambda>a. preconditionsMet a (state current)) acts)"

text \<open>
  The \<^verbatim>\<open>while (openList.length > 0)\<close> loop. \<^verbatim>\<open>Array.prototype.sort\<close> is stable, as
  \<open>sort_key\<close> is. The result is the node whose state satisfies the goal, or \<open>None\<close>
  when the open list runs empty.
\<close>

function planLoop :: "goal \<Rightarrow> action list \<Rightarrow> node list \<Rightarrow> state_key list \<Rightarrow> node option" where
  "planLoop g acts openList closedSet =
     (case sort_key (\<lambda>n. node_cost n + heuristic n) openList of
        [] \<Rightarrow> None
      | current # rest \<Rightarrow>
          if goalSatisfied g (state current) then Some current
          else if length (node_actions current) \<ge> maxPlanLength then planLoop g acts rest closedSet
          else if getStateKey (state current) \<in> set closedSet then planLoop g acts rest closedSet
          else planLoop g acts (rest @ explore g acts current)
                 (getStateKey (state current) # closedSet))"
  by pat_completeness auto

text \<open>The number of iterations of the same loop: one per node taken from the open list.\<close>

function planLoopIterations :: "goal \<Rightarrow> action list \<Rightarrow> node list \<Rightarrow> state_key list \<Rightarrow> nat" where
  "planLoopIterations g acts openList closedSet =
     (case sort_key (\<lambda>n. node_cost n + heuristic n) openList of
        [] \<Rightarrow> 0
      | current # rest \<Rightarrow>
          if goalSatisfied g (state current) then 1
          else if length (node_actions current) \<ge> maxPlanLength
            then 1 + planLoopIterations g acts rest closedSet
          else if getStateKey (state current) \<in> set closedSet
            then 1 + planLoopIterations g acts rest closedSet
          else 1 + planLoopIterations g acts (rest @ explore g acts current)
                 (getStateKey (state current) # closedSet))"
  by pat_completeness auto

definition initialNode :: "goal \<Rightarrow> world_state \<Rightarrow> node" where
  "initialNode g s =
     \<lparr>state = s, node_actions = [], node_cost = 0, heuristic = calculateHeuristic s g\<rparr>"

text \<open>
  \<^verbatim>\<open>planActions\<close>. The callback given to \<^verbatim>\<open>setTimeout\<close> can run only once the
  running code has returned to the event loop; the loop has no \<^verbatim>\<open>await\<close>, and the
  \<^verbatim>\<open>finally\<close> block clears the timer before \<^verbatim>\<open>planActions\<close> returns or throws. So the
  result is that of the loop alone.
\<close>

definition planActions :: "goal \<Rightarrow> agent \<Rightarrow> js_error + action_plan" where
  "planActions g ag =
     (case planLoop g (actions ag) [initialNode g (worldState ag)] [] of
        Some current \<Rightarrow>
          Inr \<lparr>plan_goal = g,
               plan_actions = node_actions current,
               estimatedCost = node_cost current,
               estimatedDuration =
                 foldl (\<lambda>sum a. sum + orDefault (timeout a) 1000) 0 (node_actions current)\<rparr>
      | None \<Rightarrow> Inl (GOAPPlanningError NoValidPlan g (worldState ag)))"

text \<open>
  The wall-clock time the search has taken when it ends, on a host where one iteration
  of the loop takes \<open>iterMs\<close> milliseconds.
\<close>

definition planningTime :: "nat \<Rightarrow> goal \<Rightarrow> agent \<Rightarrow> nat" where
  "planningTime iterMs g ag =
     iterMs * planLoopIterations g (actions ag) [initialNode g (worldState ag)] []"

subsection \<open>Action sequences\<close>

text \<open>Each action of the sequence has its preconditions met in the state it is applied to.\<close>

fun applicable :: "world_state \<Rightarrow> action list \<Rightarrow> bool" where
  "applicable s [] = True"
| "applicable s (a # as) = (preconditionsMet a s \<and> applicable (applyEffects s (effects a)) as)"

text \<open>The effects of the actions merged into a state, one after the other.\<close>

definition runEffects :: "world_state \<Rightarrow> action list \<Rightarrow> world_state" where
  "runEffects s as = foldl (\<lambda>s a. applyEffects s (effects a)) s as"

definition totalCost :: "action list \<Rightarrow> int" where
  "totalCost as = sum_list (map cost as)"

text \<open>A sequence of registered actions that leads from \<open>s\<close> to a state satisfying the goal.\<close>

definition reaches :: "action list \<Rightarrow> goal \<Rightarrow> world_state \<Rightarrow> action list \<Rightarrow> bool" where
  "reaches acts g s as =
     (list_all (\<lambda>a. a \<in> set acts) as \<and> applicable s as \<and> goalSatisfied g (runEffects s as))"






text \<open>The weight of a node in the termination argument, \<open>b\<close> being the number of actions.\<close>

definition weight :: "nat \<Rightarrow> node \<Rightarrow> nat" where
  "weight b n = Suc b ^ (maxPlanLength - length (node_actions n))"

section \<open>Executing a plan (base-agent.ts)\<close>

text \<open>
  The \<^verbatim>\<open>try\<close> block of \<^verbatim>\<open>executeAction\<close>: the action's promise races the timeout
  promise. The result is the payload and the time at which the action's promise was
  fulfilled, or what the \<^verbatim>\<open>catch\<close> clause receives and when. The timer of the timeout
  promise is set before the action is called, so a promise that settles at the very
  moment of the timeout loses the race. Delays are taken as written.
\<close>

definition race :: "settlement \<Rightarrow> nat \<Rightarrow> (thrown \<times> nat) + (payload \<times> nat)" where
  "race s timeoutMs =
     (case s of
        Throws e \<Rightarrow> Inl (e, 0)
      | Resolves v t \<Rightarrow>
          if t < timeoutMs then Inr (v, t) else Inl (ActionTimeout timeoutMs, timeoutMs)
      | Rejects e t \<Rightarrow>
          if t < timeoutMs then Inl (e, t) else Inl (ActionTimeout timeoutMs, timeoutMs)
      | Pending \<Rightarrow> Inl (ActionTimeout timeoutMs, timeoutMs))"

text \<open>\<^verbatim>\<open>const timeoutMs = action.timeout || 30000\<close>\<close>

definition timeoutMs :: "action \<Rightarrow> nat" where
  "timeoutMs a = orDefault (timeout a) 30000"

definition executeAction :: "action \<Rightarrow> action_context \<Rightarrow> action_result" where
  "executeAction a ctx =
     (case race (execute a ctx) (timeoutMs a) of
        Inr (result, t) \<Rightarrow>
          \<lparr>success = True, newState = None, data = Some result, error = None, duration = t\<rparr>
      | Inl (e, t) \<Rightarrow>
          \<lparr>success = False, newState = None, data = None, error = Some (toError e),
           duration = t\<rparr>)"


definition emit :: "event \<Rightarrow> agent \<Rightarrow> agent" where
  "emit e ag = ag\<lparr>emitted := emitted ag @ [e]\<rparr>"

definition updateWorldState :: "js_object \<Rightarrow> agent \<Rightarrow> agent" where
  "updateWorldState newSt ag =
     (let previousState = worldState ag;
          ag' = ag\<lparr>worldState := spread (worldState ag) newSt\<rparr>
      in emit (StateUpdated previousState (worldState ag') newSt) ag')"

text \<open>The variables of \<^verbatim>\<open>execute\<close> that its loop changes.\<close>

record run =
  runAgent :: agent
  actionResults :: "action_result list"
  result :: payload

text \<open>
  The \<^verbatim>\<open>for\<close> loop of \<^verbatim>\<open>execute\<close> over the rest of the plan, from step \<open>index\<close>: the
  error thrown, if any, and the variables as they are then.
\<close>

fun executeActions :: "goal \<Rightarrow> nat \<Rightarrow> nat \<Rightarrow> action list \<Rightarrow> run \<Rightarrow> js_error option \<times> run" where
  "executeActions g totalSteps index [] r = (None, r)"
| "executeActions g totalSteps index (a # rest) r =
     (let ag1 = emit (ActionStarted (actionName a) (index + 1) totalSteps) (runAgent r);
          actionContext = \<lparr>ctxWorldState = worldState ag1, ctxGoal = g,
                           stepIndex = index, previousResults = actionResults r\<rparr>;
          actionResult = executeAction a actionContext;
          results' = actionResults r @ [actionResult]
      in if \<not> success actionResult
         then (Some (ActionFailed (actionName a) (error actionResult)),
               r\<lparr>runAgent := ag1, actionResults := results'\<rparr>)
         else
           let ag2 = updateWorldState
                       (case newState actionResult of Some st \<Rightarrow> st | None \<Rightarrow> effects a) ag1;
               result' = (case data actionResult of
                            Some d \<Rightarrow> if truthy d then d else result r
                          | None \<Rightarrow> result r);
               ag3 = emit (ActionCompleted (actionName a) (duration actionResult) (index + 1)) ag2
           in executeActions g totalSteps (index + 1) rest
                \<lparr>runAgent = ag3, actionResults = results', result = result'\<rparr>)"

text \<open>
  What a call of \<^verbatim>\<open>execute\<close> leaves: the value returned or the error thrown, the agent
  afterwards, and the results of the actions that were invoked.
\<close>

record execution =
  outcome :: "js_error + payload"
  agentAfter :: agent
  invoked :: "action_result list"

text \<open>The \<^verbatim>\<open>catch\<close> clause of \<^verbatim>\<open>execute\<close>.\<close>

definition failTask :: "task \<Rightarrow> js_error \<Rightarrow> agent \<Rightarrow> action_result list \<Rightarrow> execution" where
  "failTask t e ag rs = \<lparr>outcome = Inl e, agentAfter = emit (TaskFailed t e) ag, invoked = rs\<rparr>"

text \<open>
  The method \<^verbatim>\<open>execute\<close> of the agent (\<open>execute\<close> is the field of an action here). The
  decorator \<^verbatim>\<open>performanceMonitor\<close> returns what the method returns and rethrows what it
  throws.
\<close>

definition execute_task :: "task \<Rightarrow> agent \<Rightarrow> execution" where
  "execute_task t ag =
     (let ag0 = emit (TaskStarted t) ag in
      case find (\<lambda>g. goalName g = taskGoal t) (goals ag0) of
        None \<Rightarrow>
          failTask t
            (GOAPPlanningError GoalNotFound
               \<lparr>goalId = [], goalName = taskGoal t, priority = 0, conditions = [],
                goalTimeout = None\<rparr>
               (worldState ag0)) ag0 []
      | Some g \<Rightarrow>
          (case planActions g ag0 of
             Inl e \<Rightarrow> failTask t e ag0 []
           | Inr plan \<Rightarrow>
               if length (plan_actions plan) = 0
               then failTask t (GOAPPlanningError NoValidActionPlan g (worldState ag0)) ag0 []
               else
                 (case executeActions g (length (plan_actions plan)) 0 (plan_actions plan)
                         \<lparr>runAgent = ag0, actionResults = [], result = taskContext t\<rparr> of
                    (Some e, r) \<Rightarrow> failTask t e (runAgent r) (actionResults r)
                  | (None, r) \<Rightarrow>
                      \<lparr>outcome = Inr (result r),
                       agentAfter = emit (TaskCompleted t (result r) (length (plan_actions plan)))
                                      (runAgent r),
                       invoked = actionResults r\<rparr>)))"

text \<open>
  The payload of the last action whose payload is truthy, or the value before the
  first action when there is none.
\<close>

fun lastTruthy :: "payload \<Rightarrow> action_result list \<Rightarrow> payload" where
  "lastTruthy d [] = d"
| "lastTruthy d (r # rs) =
     lastTruthy (case data r of Some p \<Rightarrow> if truthy p then p else d | None \<Rightarrow> d) rs"

section \<open>The LLM service: \<^verbatim>\<open>generateText\<close>\<close>

datatype ai_provider = Anthropic | Openai | Google





record token_usage =
  promptTokens :: nat
  completionTokens :: nat
  totalTokens :: nat



text \<open>An \<^verbatim>\<open>AIResponse<string>\<close>; \<^verbatim>\<open>duration\<close> only reads the clock and is left out.\<close>

record ai_response =
  content :: string
  provider :: ai_provider
  model :: string
  usage :: token_usage
  finishReason :: string



















section \<open>Concrete scenarios\<close>

subsection \<open>Writing a draft\<close>

definition draftGoal :: goal where
  "draftGoal =
     \<lparr>goalId = ''g1'', goalName = ''draft'', priority = 1,
      conditions = [(''draftComplete'', Expect (JBool True))], goalTimeout = None\<rparr>"

definition MakeOutline :: action where
  "MakeOutline =
     \<lparr>actionId = ''a1'', actionName = ''MakeOutline'', cost = 1,
      preconditions = [(''draftComplete'', JBool False)],
      effects = [(''outlineReady'', JBool True)], timeout = None,
      execute = (\<lambda>ctx. Resolves (Scalar (JStr ''outline'')) 10)\<rparr>"

definition WriteDraft :: action where
  "WriteDraft =
     \<lparr>actionId = ''a2'', actionName = ''WriteDraft'', cost = 2,
      preconditions = [(''outlineReady'', JBool True)],
      effects = [(''draftComplete'', JBool True)], timeout = None,
      execute = (\<lambda>ctx. Resolves (Scalar (JStr ''draft'')) 10)\<rparr>"

text \<open>\<^verbatim>\<open>WriteDraft\<close> with a behaviour that rejects, and with one that resolves with nothing.\<close>

definition WriteDraftFailing :: action where
  "WriteDraftFailing = WriteDraft\<lparr>execute := (\<lambda>ctx. Rejects (IsError ''provider down'') 5)\<rparr>"

definition WriteDraftSilent :: action where
  "WriteDraftSilent = WriteDraft\<lparr>execute := (\<lambda>ctx. Resolves (Scalar JUndefined) 10)\<rparr>"



definition draftState :: world_state where
  "draftState = [(''draftComplete'', JBool False), (''outlineReady'', JBool False)]"

definition draftAgent :: "action list \<Rightarrow> agent" where
  "draftAgent acts = \<lparr>worldState = draftState, goals = [draftGoal], actions = acts, emitted = []\<rparr>"

definition draftTask :: task where
  "draftTask = \<lparr>taskGoal = ''draft'', taskContext = Object ''request''\<rparr>"



subsection \<open>A ladder of twenty steps and a costly shortcut\<close>







subsection \<open>One action that meets two conditions\<close>

definition bothGoal :: goal where
  "bothGoal =
     \<lparr>goalId = ''g3'', goalName = ''both'', priority = 1,
      conditions = [(''a'', Expect (JBool True)), (''b'', Expect (JBool True))],
      goalTimeout = None\<rparr>"

definition SetBoth :: action where
  "SetBoth =
     \<lparr>actionId = ''a3'', actionName = ''SetBoth'', cost = 1,
      preconditions = [],
      effects = [(''a'', JBool True), (''b'', JBool True)], timeout = None,
      execute = (\<lambda>ctx. Resolves (Scalar JNull) 1)\<rparr>"

definition bothState :: world_state where
  "bothState = [(''a'', JBool False), (''b'', JBool False)]"

text \<open>Two predicate conditions that read the same key, and an action that writes it.\<close>

definition twicePredGoal :: goal where
  "twicePredGoal =
     \<lparr>goalId = ''g4'', goalName = ''twice'', priority = 1,
      conditions = [(''p'', Pred (\<lambda>s. getProp s ''a'' = JBool True)),
                    (''q'', Pred (\<lambda>s. getProp s ''a'' = JBool True))],
      goalTimeout = None\<rparr>"

definition SetA :: action where
  "SetA =
     \<lparr>actionId = ''a4'', actionName = ''SetA'', cost = 1,
      preconditions = [],
      effects = [(''a'', JBool True)], timeout = None,
      execute = (\<lambda>ctx. Resolves (Scalar JNull) 1)\<rparr>"

subsection \<open>Two providers\<close>







section \<open>Termination of the search\<close>

text \<open>
  With \<open>b\<close> registered actions, a node with \<open>k\<close> actions so far weighs \<open>(b + 1) ^ (20 - k)\<close>:
  more than all the successors that one expansion adds. Sorting keeps the total weight
  of the open list, and every iteration takes a node away.
\<close>

lemma sum_weight_insort:
  "sum_list (map w (insort_key f x xs)) = w x + sum_list (map (w::'a \<Rightarrow> nat) xs)"
  by (induction xs) auto

lemma sum_weight_sort:
  "sum_list (map w (sort_key f xs)) = sum_list (map (w::'a \<Rightarrow> nat) xs)"
  by (induction xs) (auto simp: sum_weight_insort)

lemma weight_pos: "0 < weight b n"
  by (simp add: weight_def)

lemma sum_list_all_equal:
  "(\<And>x. x \<in> set xs \<Longrightarrow> w x = (c::nat)) \<Longrightarrow> sum_list (map w xs) = length xs * c"
  by (induction xs) auto

lemma length_explore: "length (explore g acts current) \<le> length acts"
  by (simp add: explore_def)

lemma sum_weight_explore:
  assumes "length (node_actions current) < maxPlanLength"
  shows "sum_list (map (weight (length acts)) (explore g acts current)) < weight (length acts) current"
proof -
  obtain d where d: "maxPlanLength - length (node_actions current) = Suc d"
    using assms by (cases "maxPlanLength - length (node_actions current)") auto
  then have d': "maxPlanLength - Suc (length (node_actions current)) = d" by arith
  have each: "\<And>n. n \<in> set (explore g acts current) \<Longrightarrow> weight (length acts) n = Suc (length acts) ^ d"
    using d' by (auto simp: explore_def weight_def Let_def)
  have "sum_list (map (weight (length acts)) (explore g acts current))
        = length (explore g acts current) * Suc (length acts) ^ d"
    using each by (rule sum_list_all_equal)
  also have "\<dots> \<le> length acts * Suc (length acts) ^ d"
    using length_explore by (rule mult_le_mono1)
  also have "\<dots> < Suc (length acts) * Suc (length acts) ^ d"
    by simp
  also have "\<dots> = weight (length acts) current"
    using d by (simp add: weight_def)
  finally show ?thesis .
qed

lemma open_list_shrinks:
  assumes "sort_key f openList = current # rest"
  shows "sum_list (map (weight b) rest) < sum_list (map (weight b) openList)"
proof -
  have "sum_list (map (weight b) openList) = sum_list (map (weight b) (current # rest))"
    using assms sum_weight_sort [of "weight b" f openList] by simp
  then show ?thesis using weight_pos [of b current] by simp
qed

lemma open_list_shrinks_explore:
  assumes "sort_key f openList = current # rest"
    and "\<not> maxPlanLength \<le> length (node_actions current)"
  shows "sum_list (map (weight (length acts)) rest)
           + sum_list (map (weight (length acts)) (explore g acts current))
         < sum_list (map (weight (length acts)) openList)"
proof -
  have "sum_list (map (weight (length acts)) openList)
        = sum_list (map (weight (length acts)) (current # rest))"
    using assms(1) sum_weight_sort [of "weight (length acts)" f openList] by simp
  moreover have "length (node_actions current) < maxPlanLength"
    using assms(2) by simp
  ultimately show ?thesis using sum_weight_explore [of current acts g] by simp
qed

termination planLoop
  by (relation "measure (\<lambda>(g, acts, openList, closedSet). sum_list (map (weight (length acts)) openList))")
     (simp_all add: open_list_shrinks open_list_shrinks_explore)

termination planLoopIterations
  by (relation "measure (\<lambda>(g, acts, openList, closedSet). sum_list (map (weight (length acts)) openList))")
     (simp_all add: open_list_shrinks open_list_shrinks_explore)

declare planLoop.simps [simp del] planLoopIterations.simps [simp del]

lemmas planner_defs =
  planLoop.simps planActions_def initialNode_def calculateHeuristic_def goalSatisfied_def preconditionsMet_def
  applyEffects_def spread_def getProp_def strict_eq_def getStateKey_def jsonValue_def
  explore_def maxPlanLength_def orDefault_def

lemmas draft_defs =
  draftAgent_def draftGoal_def draftState_def MakeOutline_def WriteDraft_def

section \<open>The concrete plan scenario\<close>

text \<open>
  C3. With the goal \<^verbatim>\<open>{draftComplete: true}\<close>, the initial state
  \<^verbatim>\<open>{draftComplete: false, outlineReady: false}\<close> and the actions \<^verbatim>\<open>MakeOutline\<close> and
  \<^verbatim>\<open>WriteDraft\<close>, registered in either order, \<^verbatim>\<open>planActions\<close> returns the plan
  \<^verbatim>\<open>[MakeOutline, WriteDraft]\<close> with \<^verbatim>\<open>estimatedCost = 3\<close>.
\<close>

theorem draft_plan:
  "planActions draftGoal (draftAgent [MakeOutline, WriteDraft]) =
     Inr \<lparr>plan_goal = draftGoal, plan_actions = [MakeOutline, WriteDraft],
          estimatedCost = 3, estimatedDuration = 2000\<rparr>
   \<and> planActions draftGoal (draftAgent [WriteDraft, MakeOutline]) =
     Inr \<lparr>plan_goal = draftGoal, plan_actions = [MakeOutline, WriteDraft],
          estimatedCost = 3, estimatedDuration = 2000\<rparr>"
  by (simp add: planner_defs draft_defs)

section \<open>What the search returns\<close>












section \<open>The timeout of the search\<close>

text \<open>
  C6. The loop of \<^verbatim>\<open>planActions\<close> never reads the clock, and the timer set before it
  cannot fire while it runs. On a host where an iteration takes two seconds, the draft
  scenario needs eight seconds, more than \<open>maxPlanningTime\<close>, and \<^verbatim>\<open>planActions\<close> still
  returns the plan instead of failing with a planning timeout.
\<close>

theorem planning_overruns_limit:
  "planningTime 2000 draftGoal (draftAgent [MakeOutline, WriteDraft]) = 8000
   \<and> maxPlanningTime < 8000
   \<and> planActions draftGoal (draftAgent [MakeOutline, WriteDraft]) =
       Inr \<lparr>plan_goal = draftGoal, plan_actions = [MakeOutline, WriteDraft],
            estimatedCost = 3, estimatedDuration = 2000\<rparr>"
  by (simp add: planningTime_def planLoopIterations.simps maxPlanningTime_def planner_defs draft_defs)

section \<open>Executing the plan\<close>

lemma planActions_emit: "planActions g (emit e ag) = planActions g ag"
  by (simp add: planActions_def emit_def split: option.splits)

lemma worldState_emit: "worldState (emit e ag) = worldState ag"
  by (simp add: emit_def)

lemma worldState_update: "worldState (updateWorldState eff ag) = applyEffects (worldState ag) eff"
  by (simp add: updateWorldState_def Let_def emit_def applyEffects_def)

lemma executeAction_newState: "newState (executeAction a ctx) = None"
  by (simp add: executeAction_def split: sum.splits prod.splits)

lemma runEffects_Cons: "runEffects s (a # as) = runEffects (applyEffects s (effects a)) as"
  by (simp add: runEffects_def)

lemma executeActions_done:
  "executeActions g n i acts r = (None, r') \<Longrightarrow>
     \<exists>new. actionResults r' = actionResults r @ new
       \<and> length new = length acts
       \<and> list_all success new
       \<and> result r' = lastTruthy (result r) new
       \<and> worldState (runAgent r') = runEffects (worldState (runAgent r)) acts"
proof (induction acts arbitrary: i r)
  case Nil
  then show ?case by (simp add: runEffects_def)
next
  case (Cons a rest)
  let ?ag1 = "emit (ActionStarted (actionName a) (i + 1) n) (runAgent r)"
  let ?res = "executeAction a \<lparr>ctxWorldState = worldState ?ag1, ctxGoal = g,
                 stepIndex = i, previousResults = actionResults r\<rparr>"
  have ok: "success ?res"
    using Cons.prems by (auto simp: Let_def split: if_splits)
  let ?r1 = "\<lparr>runAgent = emit (ActionCompleted (actionName a) (duration ?res) (i + 1))
                  (updateWorldState (effects a) ?ag1),
               actionResults = actionResults r @ [?res],
               result = (case data ?res of Some d \<Rightarrow> if truthy d then d else result r
                         | None \<Rightarrow> result r)\<rparr>"
  have step: "executeActions g n (i + 1) rest ?r1 = (None, r')"
    using Cons.prems ok by (simp add: Let_def executeAction_newState)
  from Cons.IH [OF step] obtain new where
    new: "actionResults r' = actionResults ?r1 @ new" "length new = length rest"
      "list_all success new" "result r' = lastTruthy (result ?r1) new"
      "worldState (runAgent r') = runEffects (worldState (runAgent ?r1)) rest"
    by blast
  have "actionResults r' = actionResults r @ (?res # new)" using new(1) by simp
  moreover have "length (?res # new) = length (a # rest)" using new(2) by simp
  moreover have "list_all success (?res # new)" using new(3) ok by simp
  moreover have "result r' = lastTruthy (result r) (?res # new)" using new(4) by simp
  moreover have "worldState (runAgent r') = runEffects (worldState (runAgent r)) (a # rest)"
    using new(5) by (simp add: runEffects_Cons worldState_emit worldState_update)
  ultimately show ?case by blast
qed

lemma executeActions_failed:
  "executeActions g n i acts r = (Some e, r') \<Longrightarrow>
     \<exists>new k. actionResults r' = actionResults r @ new
       \<and> k < length acts
       \<and> length new = Suc k
       \<and> list_all success (take k new)
       \<and> \<not> success (new ! k)
       \<and> e = ActionFailed (actionName (acts ! k)) (error (new ! k))
       \<and> worldState (runAgent r') = runEffects (worldState (runAgent r)) (take k acts)"
proof (induction acts arbitrary: i r)
  case Nil
  then show ?case by simp
next
  case (Cons a rest)
  let ?ag1 = "emit (ActionStarted (actionName a) (i + 1) n) (runAgent r)"
  let ?res = "executeAction a \<lparr>ctxWorldState = worldState ?ag1, ctxGoal = g,
                 stepIndex = i, previousResults = actionResults r\<rparr>"
  show ?case
  proof (cases "success ?res")
    case False
    then have r': "r' = r\<lparr>runAgent := ?ag1, actionResults := actionResults r @ [?res]\<rparr>"
      and e: "e = ActionFailed (actionName a) (error ?res)"
      using Cons.prems by (simp_all add: Let_def)
    have "actionResults r' = actionResults r @ [?res]" using r' by simp
    moreover have "(0::nat) < length (a # rest)" by simp
    moreover have "length [?res] = Suc 0" by simp
    moreover have "list_all success (take 0 [?res])" by simp
    moreover have "\<not> success ([?res] ! 0)" using False by simp
    moreover have "e = ActionFailed (actionName ((a # rest) ! 0)) (error ([?res] ! 0))"
      using e by simp
    moreover have "worldState (runAgent r') = runEffects (worldState (runAgent r)) (take 0 (a # rest))"
      using r' by (simp add: runEffects_def worldState_emit)
    ultimately show ?thesis by blast
  next
    case ok: True
    let ?r1 = "\<lparr>runAgent = emit (ActionCompleted (actionName a) (duration ?res) (i + 1))
                    (updateWorldState (effects a) ?ag1),
                 actionResults = actionResults r @ [?res],
                 result = (case data ?res of Some d \<Rightarrow> if truthy d then d else result r
                           | None \<Rightarrow> result r)\<rparr>"
    have step: "executeActions g n (i + 1) rest ?r1 = (Some e, r')"
      using Cons.prems ok by (simp add: Let_def executeAction_newState)
    from Cons.IH [OF step] obtain new k where
      new: "actionResults r' = actionResults ?r1 @ new" "k < length rest" "length new = Suc k"
        "list_all success (take k new)" "\<not> success (new ! k)"
        "e = ActionFailed (actionName (rest ! k)) (error (new ! k))"
        "worldState (runAgent r') = runEffects (worldState (runAgent ?r1)) (take k rest)"
      by blast
    have "actionResults r' = actionResults r @ (?res # new)" using new(1) by simp
    moreover have "Suc k < length (a # rest)" using new(2) by simp
    moreover have "length (?res # new) = Suc (Suc k)" using new(3) by simp
    moreover have "list_all success (take (Suc k) (?res # new))" using new(4) ok by simp
    moreover have "\<not> success ((?res # new) ! Suc k)" using new(5) by simp
    moreover have "e = ActionFailed (actionName ((a # rest) ! Suc k)) (error ((?res # new) ! Suc k))"
      using new(6) by simp
    moreover have "worldState (runAgent r') = runEffects (worldState (runAgent r)) (take (Suc k) (a # rest))"
      using new(7) by (simp add: runEffects_Cons worldState_emit worldState_update)
    ultimately show ?thesis by blast
  qed
qed

lemma goals_emit: "goals (emit e ag) = goals ag"
  by (simp add: emit_def)

lemma emitted_emit: "emitted (emit e ag) = emitted ag @ [e]"
  by (simp add: emit_def)


lemma failing_draft_plan:
  "planActions draftGoal (draftAgent [MakeOutline, WriteDraftFailing]) =
     Inr \<lparr>plan_goal = draftGoal, plan_actions = [MakeOutline, WriteDraftFailing],
          estimatedCost = 3, estimatedDuration = 2000\<rparr>"
  by (simp add: planner_defs draft_defs WriteDraftFailing_def)

lemma silent_draft_plan:
  "planActions draftGoal (draftAgent [MakeOutline, WriteDraftSilent]) =
     Inr \<lparr>plan_goal = draftGoal, plan_actions = [MakeOutline, WriteDraftSilent],
          estimatedCost = 3, estimatedDuration = 2000\<rparr>"
  by (simp add: planner_defs draft_defs WriteDraftSilent_def)

lemma find_draft: "find (\<lambda>g. goalName g = taskGoal draftTask) (goals (draftAgent acts)) = Some draftGoal"
  by (simp add: draftAgent_def draftGoal_def draftTask_def)

lemma invoked_failing:
  "invoked (execute_task draftTask (draftAgent [MakeOutline, WriteDraftFailing])) =
     [\<lparr>success = True, newState = None, data = Some (Scalar (JStr ''outline'')), error = None,
       duration = 10\<rparr>,
      \<lparr>success = False, newState = None, data = None, error = Some (IsError ''provider down''),
       duration = 5\<rparr>]"
  using find_draft [of "[MakeOutline, WriteDraftFailing]"] failing_draft_plan
  by (simp add: execute_task_def Let_def goals_emit planActions_emit failTask_def)
     (simp add: executeAction_def race_def timeoutMs_def toError_def orDefault_def truthy_def
        MakeOutline_def WriteDraftFailing_def WriteDraft_def)

lemma invoked_silent:
  "invoked (execute_task draftTask (draftAgent [MakeOutline, WriteDraftSilent])) =
     [\<lparr>success = True, newState = None, data = Some (Scalar (JStr ''outline'')), error = None,
       duration = 10\<rparr>,
      \<lparr>success = True, newState = None, data = Some (Scalar JUndefined), error = None,
       duration = 10\<rparr>]"
  using find_draft [of "[MakeOutline, WriteDraftSilent]"] silent_draft_plan
  by (simp add: execute_task_def Let_def goals_emit planActions_emit failTask_def)
     (simp add: executeAction_def race_def timeoutMs_def toError_def orDefault_def truthy_def
        MakeOutline_def WriteDraftSilent_def WriteDraft_def)



text \<open>
  C4. When the result of the action at index \<open>k\<close> of the plan has \<^verbatim>\<open>success = false\<close>,
  \<^verbatim>\<open>execute\<close> stops there: no action after index \<open>k\<close> is invoked, the error thrown for
  that action is what \<^verbatim>\<open>execute\<close> throws and what the last event, \<^verbatim>\<open>task:failed\<close>,
  carries, and the world state holds the effects of the actions \<open>0..k-1\<close> merged into
  the initial state, none of them undone.
\<close>

theorem execute_aborts_without_rollback:
  assumes goal: "find (\<lambda>g. goalName g = taskGoal t) (goals ag) = Some g"
    and plan: "planActions g ag = Inr plan"
    and k: "k < length (invoked (execute_task t ag))"
    and fail: "\<not> success (invoked (execute_task t ag) ! k)"
  shows "length (invoked (execute_task t ag)) = Suc k
     \<and> k < length (plan_actions plan)
     \<and> list_all success (take k (invoked (execute_task t ag)))
     \<and> outcome (execute_task t ag)
         = Inl (ActionFailed (actionName (plan_actions plan ! k))
                  (error (invoked (execute_task t ag) ! k)))
     \<and> last (emitted (agentAfter (execute_task t ag)))
         = TaskFailed t (ActionFailed (actionName (plan_actions plan ! k))
                  (error (invoked (execute_task t ag) ! k)))
     \<and> worldState (agentAfter (execute_task t ag))
         = runEffects (worldState ag) (take k (plan_actions plan))"
proof -
  let ?ag0 = "emit (TaskStarted t) ag"
  let ?r0 = "\<lparr>runAgent = ?ag0, actionResults = [], result = taskContext t\<rparr>"
  let ?run = "executeActions g (length (plan_actions plan)) 0 (plan_actions plan) ?r0"
  have nonempty: "plan_actions plan \<noteq> []"
  proof
    assume "plan_actions plan = []"
    then have "invoked (execute_task t ag) = []"
      using goal plan by (simp add: execute_task_def Let_def goals_emit planActions_emit failTask_def)
    with k show False by simp
  qed
  obtain eo r where run: "?run = (eo, r)" by (cases ?run)
  show ?thesis
  proof (cases eo)
    case None
    then have inv: "invoked (execute_task t ag) = actionResults r"
      using goal plan nonempty run
      by (simp add: execute_task_def Let_def goals_emit planActions_emit)
    from executeActions_done [OF run [unfolded None]]
    have "list_all success (actionResults r)" by auto
    with k fail inv show ?thesis by (simp add: list_all_length)
  next
    case (Some e)
    then have ex: "execute_task t ag = failTask t e (runAgent r) (actionResults r)"
      using goal plan nonempty run
      by (simp add: execute_task_def Let_def goals_emit planActions_emit)
    from executeActions_failed [OF run [unfolded Some]] obtain new j where
      new: "actionResults r = new" "j < length (plan_actions plan)" "length new = Suc j"
        "list_all success (take j new)" "\<not> success (new ! j)"
        "e = ActionFailed (actionName (plan_actions plan ! j)) (error (new ! j))"
        "worldState (runAgent r) = runEffects (worldState ag) (take j (plan_actions plan))"
      by (auto simp: worldState_emit)
    have inv: "invoked (execute_task t ag) = new" using ex new(1) by (simp add: failTask_def)
    have "k = j"
    proof (rule ccontr)
      assume "k \<noteq> j"
      then have "k < j" using k inv new(3) by simp
      then have "success (new ! k)" using new(4) new(3) by (simp add: list_all_length)
      with fail inv show False by simp
    qed
    then show ?thesis
      using ex inv new by (simp add: failTask_def emitted_emit worldState_emit)
  qed
qed

theorem execute_aborts_without_rollback_witness:
  "find (\<lambda>g. goalName g = taskGoal draftTask) (goals (draftAgent [MakeOutline, WriteDraftFailing]))
     = Some draftGoal
   \<and> planActions draftGoal (draftAgent [MakeOutline, WriteDraftFailing]) =
       Inr \<lparr>plan_goal = draftGoal, plan_actions = [MakeOutline, WriteDraftFailing],
            estimatedCost = 3, estimatedDuration = 2000\<rparr>
   \<and> 1 < length (invoked (execute_task draftTask (draftAgent [MakeOutline, WriteDraftFailing])))
   \<and> \<not> success (invoked (execute_task draftTask (draftAgent [MakeOutline, WriteDraftFailing])) ! 1)
   \<and> length (invoked (execute_task draftTask (draftAgent [MakeOutline, WriteDraftFailing]))) = 2
   \<and> outcome (execute_task draftTask (draftAgent [MakeOutline, WriteDraftFailing]))
       = Inl (ActionFailed ''WriteDraft'' (Some (IsError ''provider down'')))
   \<and> last (emitted (agentAfter (execute_task draftTask (draftAgent [MakeOutline, WriteDraftFailing]))))
       = TaskFailed draftTask (ActionFailed ''WriteDraft'' (Some (IsError ''provider down'')))
   \<and> worldState (agentAfter (execute_task draftTask (draftAgent [MakeOutline, WriteDraftFailing])))
       = [(''draftComplete'', JBool False), (''outlineReady'', JBool True)]"
proof -
  let ?ag = "draftAgent [MakeOutline, WriteDraftFailing]"
  have k: "1 < length (invoked (execute_task draftTask ?ag))"
    by (simp add: invoked_failing)
  have fail: "\<not> success (invoked (execute_task draftTask ?ag) ! 1)"
    by (simp add: invoked_failing)
  have ws: "runEffects (worldState ?ag) (take 1 [MakeOutline, WriteDraftFailing])
      = [(''draftComplete'', JBool False), (''outlineReady'', JBool True)]"
    by (simp add: runEffects_def applyEffects_def spread_def draftAgent_def draftState_def
          MakeOutline_def)
  have nm: "actionName ([MakeOutline, WriteDraftFailing] ! 1) = ''WriteDraft''"
    by (simp add: WriteDraftFailing_def WriteDraft_def)
  from execute_aborts_without_rollback [OF find_draft failing_draft_plan k fail]
  show ?thesis
    using find_draft [of "[MakeOutline, WriteDraftFailing]"] failing_draft_plan k fail ws nm
    by (simp add: invoked_failing)
qed

text \<open>
  C9, as stated, fails: the last action of the plan resolves with \<^verbatim>\<open>undefined\<close>, and
  \<^verbatim>\<open>execute\<close> returns, and \<^verbatim>\<open>task:completed\<close> carries, the payload of the action
  before it.
\<close>

theorem last_payload_not_returned:
  "length (invoked (execute_task draftTask (draftAgent [MakeOutline, WriteDraftSilent]))) = 2
   \<and> list_all success (invoked (execute_task draftTask (draftAgent [MakeOutline, WriteDraftSilent])))
   \<and> data (last (invoked (execute_task draftTask (draftAgent [MakeOutline, WriteDraftSilent]))))
       = Some (Scalar JUndefined)
   \<and> outcome (execute_task draftTask (draftAgent [MakeOutline, WriteDraftSilent]))
       = Inr (Scalar (JStr ''outline''))
   \<and> last (emitted (agentAfter (execute_task draftTask (draftAgent [MakeOutline, WriteDraftSilent]))))
       = TaskCompleted draftTask (Scalar (JStr ''outline'')) 2"
proof -
  let ?ag = "draftAgent [MakeOutline, WriteDraftSilent]"
  have ex: "execute_task draftTask ?ag =
      \<lparr>outcome = Inr (Scalar (JStr ''outline'')),
       agentAfter = agentAfter (execute_task draftTask ?ag),
       invoked = invoked (execute_task draftTask ?ag)\<rparr>"
    using find_draft [of "[MakeOutline, WriteDraftSilent]"] silent_draft_plan
    by (simp add: execute_task_def Let_def goals_emit planActions_emit failTask_def)
       (simp add: executeAction_def race_def timeoutMs_def toError_def orDefault_def truthy_def
          MakeOutline_def WriteDraftSilent_def WriteDraft_def draftTask_def)
  have ev: "last (emitted (agentAfter (execute_task draftTask ?ag)))
       = TaskCompleted draftTask (Scalar (JStr ''outline'')) 2"
    using find_draft [of "[MakeOutline, WriteDraftSilent]"] silent_draft_plan
    by (simp add: execute_task_def Let_def goals_emit planActions_emit failTask_def)
       (simp add: executeAction_def race_def timeoutMs_def toError_def orDefault_def truthy_def
          MakeOutline_def WriteDraftSilent_def WriteDraft_def draftTask_def emit_def)
  have "outcome (execute_task draftTask ?ag) = Inr (Scalar (JStr ''outline''))"
    by (subst ex) simp
  then show ?thesis using ev by (simp add: invoked_silent)
qed

text \<open>
  C9, amended. When all the actions of the plan succeed, \<^verbatim>\<open>execute\<close> returns the payload
  of the last action whose payload is truthy (the context of the task when no action
  has one), and the last event, \<^verbatim>\<open>task:completed\<close>, carries that same value.
\<close>

theorem execute_returns_last_truthy:
  assumes goal: "find (\<lambda>g. goalName g = taskGoal t) (goals ag) = Some g"
    and plan: "planActions g ag = Inr plan"
    and nonempty: "plan_actions plan \<noteq> []"
    and all: "list_all success (invoked (execute_task t ag))"
  shows "length (invoked (execute_task t ag)) = length (plan_actions plan)
     \<and> outcome (execute_task t ag)
         = Inr (lastTruthy (taskContext t) (invoked (execute_task t ag)))
     \<and> last (emitted (agentAfter (execute_task t ag)))
         = TaskCompleted t (lastTruthy (taskContext t) (invoked (execute_task t ag)))
             (length (plan_actions plan))"
proof -
  let ?ag0 = "emit (TaskStarted t) ag"
  let ?r0 = "\<lparr>runAgent = ?ag0, actionResults = [], result = taskContext t\<rparr>"
  let ?run = "executeActions g (length (plan_actions plan)) 0 (plan_actions plan) ?r0"
  obtain eo r where run: "?run = (eo, r)" by (cases ?run)
  show ?thesis
  proof (cases eo)
    case (Some e)
    then have ex: "execute_task t ag = failTask t e (runAgent r) (actionResults r)"
      using goal plan nonempty run
      by (simp add: execute_task_def Let_def goals_emit planActions_emit)
    from executeActions_failed [OF run [unfolded Some]] obtain new j where
      new: "actionResults r = new" "length new = Suc j" "\<not> success (new ! j)"
      by auto
    have "invoked (execute_task t ag) = new" using ex new(1) by (simp add: failTask_def)
    with all new(2,3) show ?thesis by (simp add: list_all_length)
  next
    case None
    then have ex: "execute_task t ag =
        \<lparr>outcome = Inr (result r),
         agentAfter = emit (TaskCompleted t (result r) (length (plan_actions plan))) (runAgent r),
         invoked = actionResults r\<rparr>"
      using goal plan nonempty run
      by (simp add: execute_task_def Let_def goals_emit planActions_emit)
    from executeActions_done [OF run [unfolded None]]
    have "length (actionResults r) = length (plan_actions plan)"
      and "result r = lastTruthy (taskContext t) (actionResults r)"
      by auto
    then show ?thesis using ex by (simp add: emitted_emit)
  qed
qed

theorem execute_returns_last_truthy_witness:
  "find (\<lambda>g. goalName g = taskGoal draftTask) (goals (draftAgent [MakeOutline, WriteDraftSilent]))
     = Some draftGoal
   \<and> planActions draftGoal (draftAgent [MakeOutline, WriteDraftSilent]) =
       Inr \<lparr>plan_goal = draftGoal, plan_actions = [MakeOutline, WriteDraftSilent],
            estimatedCost = 3, estimatedDuration = 2000\<rparr>
   \<and> list_all success (invoked (execute_task draftTask (draftAgent [MakeOutline, WriteDraftSilent])))
   \<and> outcome (execute_task draftTask (draftAgent [MakeOutline, WriteDraftSilent]))
       = Inr (Scalar (JStr ''outline''))
   \<and> last (emitted (agentAfter (execute_task draftTask (draftAgent [MakeOutline, WriteDraftSilent]))))
       = TaskCompleted draftTask (Scalar (JStr ''outline'')) 2"
proof -
  let ?ag = "draftAgent [MakeOutline, WriteDraftSilent]"
  have all: "list_all success (invoked (execute_task draftTask ?ag))"
    by (simp add: invoked_silent)
  have ne: "plan_actions \<lparr>plan_goal = draftGoal, plan_actions = [MakeOutline, WriteDraftSilent],
            estimatedCost = 3, estimatedDuration = 2000\<rparr> \<noteq> []" by simp
  have lt: "lastTruthy (taskContext draftTask) (invoked (execute_task draftTask ?ag))
      = Scalar (JStr ''outline'')"
    by (simp add: invoked_silent truthy_def)
  from execute_returns_last_truthy [OF find_draft silent_draft_plan ne all]
  show ?thesis
    using find_draft [of "[MakeOutline, WriteDraftSilent]"] silent_draft_plan all
    by (simp add: lt)
qed

section \<open>Running one action\<close>




section \<open>The heuristic\<close>

lemma goalSatisfied_conditionMet: "goalSatisfied g s = list_all (conditionMet s) (conditions g)"
  by (auto simp: goalSatisfied_def conditionMet_def list_all_iff split: condition.splits)

lemma fold_count:
  "fold (\<lambda>x d. if P x then d + 1 else d) xs (d0::int) = d0 + int (length (filter P xs))"
  by (induction xs arbitrary: d0) auto

lemma calculateHeuristic_count:
  "calculateHeuristic s g = int (length (filter (\<lambda>kc. \<not> conditionMet s kc) (conditions g)))"
proof -
  have "(\<lambda>(key, expectedValue) distance.
        case expectedValue of
          Pred f \<Rightarrow> (if \<not> f s then distance + 1 else distance)
        | Expect v \<Rightarrow> (if \<not> strict_eq (getProp s key) v then distance + 1 else distance))
      = (\<lambda>kc d. if \<not> conditionMet s kc then d + (1::int) else d)"
    by (auto simp: fun_eq_iff conditionMet_def split: condition.splits)
  then show ?thesis by (simp add: calculateHeuristic_def fold_count)
qed

lemma getProp_update:
  "getProp (AList.update k v s) k' = (if k' = k then v else getProp s k')"
  by (simp add: getProp_def update_conv')

lemma conditionMet_other_key:
  "isScalar kc \<Longrightarrow> fst kc \<noteq> k \<Longrightarrow> conditionMet (AList.update k v s) kc = conditionMet s kc"
  by (auto simp: conditionMet_def isScalar_def getProp_update split: condition.splits)

lemma unmet_other_keys:
  "list_all isScalar cs \<Longrightarrow> k \<notin> fst ` set cs \<Longrightarrow>
   filter (\<lambda>kc. \<not> conditionMet (AList.update k v s) kc) cs = filter (\<lambda>kc. \<not> conditionMet s kc) cs"
  by (induction cs) (auto simp: conditionMet_other_key)

lemma unmet_update:
  "list_all isScalar cs \<Longrightarrow> distinct (map fst cs) \<Longrightarrow>
   length (filter (\<lambda>kc. \<not> conditionMet s kc) cs)
     \<le> length (filter (\<lambda>kc. \<not> conditionMet (AList.update k v s) kc) cs) + 1"
proof (induction cs)
  case Nil
  then show ?case by simp
next
  case (Cons c cs)
  show ?case
  proof (cases "fst c = k")
    case True
    then have "k \<notin> fst ` set cs" using Cons.prems(2) by auto
    then have "filter (\<lambda>kc. \<not> conditionMet (AList.update k v s) kc) cs
        = filter (\<lambda>kc. \<not> conditionMet s kc) cs"
      using Cons.prems(1) unmet_other_keys by simp
    then show ?thesis by simp
  next
    case False
    then have "conditionMet (AList.update k v s) c = conditionMet s c"
      using Cons.prems(1) conditionMet_other_key by simp
    then show ?thesis using Cons by simp
  qed
qed

lemma unmet_spread:
  assumes "list_all isScalar cs" and "distinct (map fst cs)"
  shows "length (filter (\<lambda>kc. \<not> conditionMet s kc) cs)
     \<le> length (filter (\<lambda>kc. \<not> conditionMet (spread s eff) kc) cs) + length eff"
proof (induction eff arbitrary: s)
  case Nil
  then show ?case by (simp add: spread_def)
next
  case (Cons kv eff)
  obtain k v where kv: "kv = (k, v)" by (cases kv)
  have "length (filter (\<lambda>kc. \<not> conditionMet s kc) cs)
      \<le> length (filter (\<lambda>kc. \<not> conditionMet (AList.update k v s) kc) cs) + 1"
    using assms by (rule unmet_update)
  also have "\<dots> \<le> length (filter (\<lambda>kc. \<not> conditionMet (spread (AList.update k v s) eff) kc) cs)
      + length eff + 1"
    using Cons.IH [of "AList.update k v s"] by simp
  finally show ?case by (simp add: kv spread_def)
qed

lemma unmet_runEffects:
  assumes "list_all isScalar cs" and "distinct (map fst cs)"
  shows "length (filter (\<lambda>kc. \<not> conditionMet s kc) cs)
     \<le> length (filter (\<lambda>kc. \<not> conditionMet (runEffects s as) kc) cs)
        + sum_list (map (\<lambda>a. length (effects a)) as)"
proof (induction as arbitrary: s)
  case Nil
  then show ?case by (simp add: runEffects_def)
next
  case (Cons a as)
  have "length (filter (\<lambda>kc. \<not> conditionMet s kc) cs)
      \<le> length (filter (\<lambda>kc. \<not> conditionMet (applyEffects s (effects a)) kc) cs)
         + length (effects a)"
    using unmet_spread [OF assms] by (simp add: applyEffects_def)
  also have "\<dots> \<le> length (filter (\<lambda>kc. \<not> conditionMet (runEffects (applyEffects s (effects a)) as) kc) cs)
         + sum_list (map (\<lambda>a. length (effects a)) as) + length (effects a)"
    using Cons.IH [of "applyEffects s (effects a)"] by simp
  finally show ?case by (simp add: runEffects_def)
qed

lemma effects_bounded_by_cost:
  "(\<And>a. a \<in> set as \<Longrightarrow> int (length (effects a)) \<le> cost a) \<Longrightarrow>
   int (sum_list (map (\<lambda>a. length (effects a)) as)) \<le> totalCost as"
proof (induction as)
  case Nil
  then show ?case by (simp add: totalCost_def)
next
  case (Cons a as)
  have "int (length (effects a)) \<le> cost a" using Cons.prems by simp
  moreover have "int (sum_list (map (\<lambda>a. length (effects a)) as)) \<le> totalCost as"
    using Cons by simp
  ultimately show ?case by (simp add: totalCost_def)
qed

text \<open>
  C8, as stated, fails: with every cost at least 1, one action of cost 1 that writes two
  keys meets two conditions at once, and so does one that writes the key two predicate
  conditions read; the heuristic is 2 and the goal is one action of cost 1 away.
\<close>

theorem heuristic_overestimates:
  "1 \<le> cost SetBoth
   \<and> reaches [SetBoth] bothGoal bothState [SetBoth]
   \<and> totalCost [SetBoth] = 1
   \<and> calculateHeuristic bothState bothGoal = 2
   \<and> 1 \<le> cost SetA
   \<and> reaches [SetA] twicePredGoal bothState [SetA]
   \<and> totalCost [SetA] = 1
   \<and> calculateHeuristic bothState twicePredGoal = 2"
  by (simp add: reaches_def runEffects_def totalCost_def planner_defs SetBoth_def SetA_def
        bothGoal_def bothState_def twicePredGoal_def)

text \<open>
  C8, amended. For a goal whose conditions all expect scalar values, when every
  registered action has a cost of at least 1 and of at least the number of keys its
  effects write, \<^verbatim>\<open>calculateHeuristic\<close> (the number of conditions not met in the state)
  is at most the total cost of any sequence of registered actions that leads from the
  state to one satisfying the goal, hence at most the least such cost.
\<close>

theorem heuristic_admissible:
  assumes costs: "\<forall>a \<in> set acts. 1 \<le> cost a \<and> int (length (effects a)) \<le> cost a"
    and scalar: "list_all isScalar (conditions g)"
    and keys: "distinct (map fst (conditions g))"
    and reach: "reaches acts g s as"
  shows "calculateHeuristic s g \<le> totalCost as"
proof -
  have "list_all (conditionMet (runEffects s as)) (conditions g)"
    using reach by (simp add: reaches_def goalSatisfied_conditionMet)
  then have none: "filter (\<lambda>kc. \<not> conditionMet (runEffects s as) kc) (conditions g) = []"
    by (simp add: list_all_iff filter_empty_conv)
  have "length (filter (\<lambda>kc. \<not> conditionMet s kc) (conditions g))
      \<le> sum_list (map (\<lambda>a. length (effects a)) as)"
    using unmet_runEffects [OF scalar keys, of s as] none by simp
  then have "calculateHeuristic s g \<le> int (sum_list (map (\<lambda>a. length (effects a)) as))"
    by (simp add: calculateHeuristic_count)
  also have "\<dots> \<le> totalCost as"
  proof (rule effects_bounded_by_cost)
    fix a assume "a \<in> set as"
    then have "a \<in> set acts" using reach by (auto simp: reaches_def list_all_iff)
    then show "int (length (effects a)) \<le> cost a" using costs by blast
  qed
  finally show ?thesis .
qed

theorem heuristic_admissible_witness:
  "1 \<le> cost MakeOutline \<and> int (length (effects MakeOutline)) \<le> cost MakeOutline
   \<and> 1 \<le> cost WriteDraft \<and> int (length (effects WriteDraft)) \<le> cost WriteDraft
   \<and> list_all isScalar (conditions draftGoal)
   \<and> distinct (map fst (conditions draftGoal))
   \<and> reaches [MakeOutline, WriteDraft] draftGoal draftState [MakeOutline, WriteDraft]
   \<and> calculateHeuristic draftState draftGoal \<le> totalCost [MakeOutline, WriteDraft]
   \<and> calculateHeuristic draftState draftGoal = 1
   \<and> totalCost [MakeOutline, WriteDraft] = 3"
proof -
  have c: "\<forall>a \<in> set [MakeOutline, WriteDraft]. 1 \<le> cost a \<and> int (length (effects a)) \<le> cost a"
    by (simp add: MakeOutline_def WriteDraft_def)
  have sc: "list_all isScalar (conditions draftGoal)"
    by (simp add: draftGoal_def isScalar_def)
  have k: "distinct (map fst (conditions draftGoal))"
    by (simp add: draftGoal_def)
  have r: "reaches [MakeOutline, WriteDraft] draftGoal draftState [MakeOutline, WriteDraft]"
    by (simp add: reaches_def runEffects_def planner_defs draft_defs)
  have h: "calculateHeuristic draftState draftGoal = 1"
    by (simp add: planner_defs draft_defs)
  have t: "totalCost [MakeOutline, WriteDraft] = 3"
    by (simp add: totalCost_def draft_defs)
  from heuristic_admissible [OF c sc k r] show ?thesis
    using c sc k r h t by simp
qed

section \<open>The fallback cascade of \<^verbatim>\<open>generateText\<close>\<close>







section \<open>Plans for reachable goals\<close>


subsection \<open>States with the same key\<close>














subsection \<open>Closing a state keeps a way to the goal open\<close>











end
